theory Spec2Isabelle
  imports
    Complex_Main
    "HOL-Library.Word"
    "HOL-Library.Char_ord"
    "HOL-Library.List_Lexorder"
    "HOL-Library.Sublist"
    "HOL-Library.Stream"
begin

unbundle bit_operations_syntax

section \<open>Python values the views handle\<close>

text \<open>
  The views of \<^verbatim>\<open>lab3/marketplace\<close> read strings from the request, test them for
  truth, parse them with \<^verbatim>\<open>int\<close> and \<^verbatim>\<open>float\<close> and hand them to the framework.
  Strings are modelled as \<^typ>\<open>string\<close> over ASCII: case folding, whitespace and digits
  are the ASCII ones (SQLite's \<^verbatim>\<open>LIKE\<close>, which the framework's case-insensitive lookups
  use, folds ASCII letters only).
\<close>

definition lower_char :: "char \<Rightarrow> char" where
  "lower_char c =
     (if CHR ''A'' \<le> c \<and> c \<le> CHR ''Z'' then char_of (of_char c + (32::nat)) else c)"

definition upper_char :: "char \<Rightarrow> char" where
  "upper_char c =
     (if CHR ''a'' \<le> c \<and> c \<le> CHR ''z'' then char_of (of_char c - (32::nat)) else c)"

definition lower :: "string \<Rightarrow> string" where
  "lower s = map lower_char s"

definition upper :: "string \<Rightarrow> string" where
  "upper s = map upper_char s"

text \<open>\<^verbatim>\<open>str.isspace\<close> on ASCII: tab, line feed, vertical tab, form feed, carriage return,
  the four separators 0x1C..0x1F and the space.\<close>

definition isspace :: "char \<Rightarrow> bool" where
  "isspace c = (of_char c \<in> {9, 10, 11, 12, 13, 28, 29, 30, 31, 32 :: nat})"

definition strip :: "string \<Rightarrow> string" where
  "strip s = rev (dropWhile isspace (rev (dropWhile isspace s)))"

definition isdigit :: "char \<Rightarrow> bool" where
  "isdigit c = (CHR ''0'' \<le> c \<and> c \<le> CHR ''9'')"

definition digit_val :: "char \<Rightarrow> nat" where
  "digit_val c = of_char c - 48"

text \<open>The grammar \<^verbatim>\<open>digitpart ::= digit (["_"] digit)*\<close> of Python's numeric strings:
  single underscores, between digits only.\<close>

fun digitpart :: "string \<Rightarrow> bool" where
  "digitpart [] = False"
| "digitpart [c] = isdigit c"
| "digitpart (c # d # cs) =
     (isdigit c \<and> (if d = CHR ''_'' then digitpart cs else digitpart (d # cs)))"

definition digits_val :: "string \<Rightarrow> nat" where
  "digits_val s = foldl (\<lambda>n c. 10 * n + digit_val c) 0 (filter isdigit s)"

definition split_sign :: "string \<Rightarrow> bool \<times> string" where
  "split_sign s =
     (case s of
        [] \<Rightarrow> (False, [])
      | c # cs \<Rightarrow>
          if c = CHR ''-'' then (True, cs)
          else if c = CHR ''+'' then (False, cs)
          else (False, s))"

datatype py_error = TypeError | ValueError

text \<open>A value read from the request: \<^verbatim>\<open>request.GET.get(key)\<close> is a string or
  \<^verbatim>\<open>None\<close>; the paginator also passes itself an \<^verbatim>\<open>int\<close>.\<close>

datatype py_value = PyNone | PyStr string | PyInt int

text \<open>Python's truth test, as \<^verbatim>\<open>if search_query:\<close> and \<^verbatim>\<open>all([...])\<close> apply it.\<close>

fun truthy :: "py_value \<Rightarrow> bool" where
  "truthy PyNone = False"
| "truthy (PyStr s) = (s \<noteq> [])"
| "truthy (PyInt n) = (n \<noteq> 0)"

text \<open>\<^verbatim>\<open>int(s)\<close> for a string: surrounding whitespace is skipped, then an optional sign
  and a \<^verbatim>\<open>digitpart\<close> in base ten; anything else raises \<^verbatim>\<open>ValueError\<close>.\<close>

definition int_of_str :: "string \<Rightarrow> py_error + int" where
  "int_of_str s =
     (let (neg, ds) = split_sign (strip s)
      in if digitpart ds
         then Inr (if neg then - int (digits_val ds) else int (digits_val ds))
         else Inl ValueError)"

fun py_int :: "py_value \<Rightarrow> py_error + int" where
  "py_int PyNone = Inl TypeError"
| "py_int (PyStr s) = int_of_str s"
| "py_int (PyInt n) = Inr n"

text \<open>
  \<^verbatim>\<open>float(s)\<close> for a string. The grammar is Python's:
  \<^verbatim>\<open>floatvalue ::= [sign] (floatnumber | "inf" | "infinity" | "nan")\<close>,
  \<^verbatim>\<open>floatnumber ::= number [("e" | "E") [sign] digitpart]\<close>,
  \<^verbatim>\<open>number ::= [digitpart] "." digitpart | digitpart ["."]\<close>.
  A finite result carries the exact decimal value the string denotes; the rounding to
  binary64 is outside this model.
\<close>

datatype py_float = Finite rat | Infinity bool | NaN

definition number_ok :: "string \<Rightarrow> bool" where
  "number_ok s =
     (let ip = takeWhile (\<lambda>c. c \<noteq> CHR ''.'') s;
          r = dropWhile (\<lambda>c. c \<noteq> CHR ''.'') s
      in case r of
           [] \<Rightarrow> digitpart ip
         | _ # fp \<Rightarrow>
             if fp = [] then digitpart ip
             else (ip = [] \<or> digitpart ip) \<and> digitpart fp)"

definition is_exp_mark :: "char \<Rightarrow> bool" where
  "is_exp_mark c = (c = CHR ''e'' \<or> c = CHR ''E'')"

definition exponent_ok :: "string \<Rightarrow> bool" where
  "exponent_ok s = digitpart (snd (split_sign s))"

definition exponent_val :: "string \<Rightarrow> int" where
  "exponent_val s =
     (let (neg, ds) = split_sign s
      in if neg then - int (digits_val ds) else int (digits_val ds))"

definition scale10 :: "nat \<Rightarrow> int \<Rightarrow> rat" where
  "scale10 m k = (if 0 \<le> k then of_nat m * 10 ^ nat k else of_nat m / 10 ^ nat (- k))"

definition floatnumber :: "string \<Rightarrow> rat option" where
  "floatnumber s =
     (let num = takeWhile (\<lambda>c. \<not> is_exp_mark c) s;
          r = dropWhile (\<lambda>c. \<not> is_exp_mark c) s;
          fp = drop 1 (dropWhile (\<lambda>c. c \<noteq> CHR ''.'') num);
          e = (case r of [] \<Rightarrow> 0 | _ # ex \<Rightarrow> exponent_val ex)
      in if number_ok num \<and> (r = [] \<or> exponent_ok (tl r))
         then Some (scale10 (digits_val num) (e - int (length (filter isdigit fp))))
         else None)"

definition float_of_str :: "string \<Rightarrow> py_error + py_float" where
  "float_of_str s =
     (let (neg, body) = split_sign (strip s)
      in if lower body = ''inf'' \<or> lower body = ''infinity'' then Inr (Infinity neg)
         else if lower body = ''nan'' then Inr NaN
         else case floatnumber body of
                None \<Rightarrow> Inl ValueError
              | Some v \<Rightarrow> Inr (Finite (if neg then - v else v)))"

fun py_float_of :: "py_value \<Rightarrow> py_error + py_float" where
  "py_float_of PyNone = Inl TypeError"
| "py_float_of (PyStr s) = float_of_str s"
| "py_float_of (PyInt n) = Inr (Finite (of_int n))"

section \<open>The code generator: \<^verbatim>\<open>str(uuid.uuid4())[:8].upper()\<close>\<close>

text \<open>
  \<^verbatim>\<open>uuid.uuid4()\<close> reads 16 random bytes as a 128-bit integer, clears and sets the
  variant bits (\<^verbatim>\<open>int &= ~(0xc000 << 48); int |= 0x8000 << 48\<close>) and the version bits
  (\<^verbatim>\<open>int &= ~(0xf000 << 64); int |= 4 << 76\<close>). The random bytes are an input of the
  model: a stream of 128-bit words, one consumed by each call.
\<close>

type_synonym uuid = "128 word"

definition uuid_of_random :: "128 word \<Rightarrow> uuid" where
  "uuid_of_random r =
     ((((r AND NOT (push_bit 48 0xc000)) OR push_bit 48 0x8000)
         AND NOT (push_bit 64 0xf000)) OR push_bit 76 4)"

definition uuid4 :: "128 word stream \<Rightarrow> uuid \<times> 128 word stream" where
  "uuid4 rng = (uuid_of_random (shd rng), stl rng)"

definition hexdigit :: "nat \<Rightarrow> char" where
  "hexdigit n = ''0123456789abcdef'' ! n"

text \<open>\<^verbatim>\<open>'%032x' % int\<close>: the 32 hexadecimal digits, most significant first.\<close>

definition hex32 :: "uuid \<Rightarrow> string" where
  "hex32 u = map (\<lambda>i. hexdigit (unat (drop_bit (4 * (31 - i)) u AND 0xf))) [0..<32]"

text \<open>\<^verbatim>\<open>str(uuid)\<close>: the digits grouped 8-4-4-4-12.\<close>

definition uuid_str :: "uuid \<Rightarrow> string" where
  "uuid_str u =
     (let h = hex32 u
      in take 8 h @ ''-'' @ take 4 (drop 8 h) @ ''-'' @ take 4 (drop 12 h) @ ''-''
         @ take 4 (drop 16 h) @ ''-'' @ drop 20 h)"

definition generate_code :: "uuid \<Rightarrow> string" where
  "generate_code u = upper (take 8 (uuid_str u))"

section \<open>The data model: \<^verbatim>\<open>category/models.py\<close> and \<^verbatim>\<open>products/models.py\<close>\<close>

text \<open>
  A row of each table, with the primary key the framework adds. Timestamps are readings
  of a clock, passed to the views as a number. \<^verbatim>\<open>price\<close> holds the value handed to the
  \<^verbatim>\<open>DecimalField\<close>; \<^verbatim>\<open>category\<close> is the foreign key
  (\<^verbatim>\<open>ForeignKey('category.Category', on_delete=models.CASCADE)\<close>).
\<close>

record category =
  pk :: nat
  name :: string
  description :: string
  image :: "string option"
  created_at :: nat
  updated_at :: nat

record product =
  pk :: nat
  name :: string
  price :: rat
  image :: "string option"
  instock :: int
  code :: string
  description :: string
  category :: nat
  created_at :: nat
  updated_at :: nat

text \<open>The database: both tables in insertion order and the next key of each.\<close>

record store =
  categories :: "category list"
  products :: "product list"
  next_category_pk :: nat
  next_product_pk :: nat

section \<open>Query sets\<close>

text \<open>
  A query set is a table and a \<^verbatim>\<open>WHERE\<close> condition; nothing is read until it is
  evaluated. \<^verbatim>\<open>filter\<close> adds a conjunct, \<^verbatim>\<open>|\<close> combines the conditions of two query sets
  over the same table with \<^verbatim>\<open>OR\<close>, and evaluation selects the rows and orders them by
  the model's \<^verbatim>\<open>Meta.ordering\<close>. Rows with equal keys stay in table order (SQL leaves
  their order open).
\<close>

record 'a queryset =
  table :: "'a list"
  cond :: "'a \<Rightarrow> bool"

definition objects_all :: "'a list \<Rightarrow> 'a queryset" where
  "objects_all rows = \<lparr>table = rows, cond = (\<lambda>_. True)\<rparr>"

definition qs_filter :: "'a queryset \<Rightarrow> ('a \<Rightarrow> bool) \<Rightarrow> 'a queryset" where
  "qs_filter qs P = qs\<lparr>cond := (\<lambda>r. cond qs r \<and> P r)\<rparr>"

definition qs_exclude :: "'a queryset \<Rightarrow> ('a \<Rightarrow> bool) \<Rightarrow> 'a queryset" where
  "qs_exclude qs P = qs\<lparr>cond := (\<lambda>r. cond qs r \<and> \<not> P r)\<rparr>"

definition qs_or :: "'a queryset \<Rightarrow> 'a queryset \<Rightarrow> 'a queryset" where
  "qs_or a b = a\<lparr>cond := (\<lambda>r. cond a r \<or> cond b r)\<rparr>"

definition qs_rows :: "'a queryset \<Rightarrow> 'a list" where
  "qs_rows qs = filter (cond qs) (table qs)"

definition qs_exists :: "'a queryset \<Rightarrow> bool" where
  "qs_exists qs = (qs_rows qs \<noteq> [])"

definition qs_count :: "'a queryset \<Rightarrow> nat" where
  "qs_count qs = length (qs_rows qs)"

text \<open>\<^verbatim>\<open>ordering = ['-created_at']\<close> for products, \<^verbatim>\<open>ordering = ['name']\<close> for categories.\<close>

definition product_order :: "product \<Rightarrow> int" where
  "product_order p = - int (product.created_at p)"

definition product_rows :: "product queryset \<Rightarrow> product list" where
  "product_rows qs = sort_key product_order (qs_rows qs)"

definition category_rows :: "category queryset \<Rightarrow> category list" where
  "category_rows qs = sort_key category.name (qs_rows qs)"

text \<open>The lookups. \<^verbatim>\<open>field__icontains=q\<close> is \<^verbatim>\<open>field LIKE '%q%'\<close> without regard to
  case: the search below looks for the folded query at every position of the folded
  field. \<^verbatim>\<open>field__iexact=q\<close> compares the folded strings.\<close>

fun startswith :: "string \<Rightarrow> string \<Rightarrow> bool" where
  "startswith s [] = True"
| "startswith [] (q # qs) = False"
| "startswith (c # cs) (q # qs) = (c = q \<and> startswith cs qs)"

fun contains :: "string \<Rightarrow> string \<Rightarrow> bool" where
  "contains [] q = (q = [])"
| "contains (c # cs) q = (startswith (c # cs) q \<or> contains cs q)"

definition icontains :: "string \<Rightarrow> string \<Rightarrow> bool" where
  "icontains field q = contains (lower field) (lower q)"

definition iexact :: "string \<Rightarrow> string \<Rightarrow> bool" where
  "iexact field q = (lower field = lower q)"

section \<open>The framework's paginator\<close>

text \<open>
  \<^verbatim>\<open>django.core.paginator.Paginator\<close>, as the views call it:
  \<^verbatim>\<open>Paginator(object_list, per_page)\<close> with the defaults \<^verbatim>\<open>orphans=0\<close> and
  \<^verbatim>\<open>allow_empty_first_page=True\<close>.
  \<^verbatim>\<open>
  def num_pages(self):
      if self.count == 0 and not self.allow_empty_first_page:
          return 0
      hits = max(1, self.count - self.orphans)
      return ceil(hits / self.per_page)

  def validate_number(self, number):
      try:
          number = int(number)
      except (TypeError, ValueError):
          raise PageNotAnInteger
      if number < 1:
          raise EmptyPage
      if number > self.num_pages:
          raise EmptyPage
      return number

  def get_page(self, number):
      try:
          number = self.validate_number(number)
      except PageNotAnInteger:
          number = 1
      except EmptyPage:
          number = self.num_pages
      return self.page(number)

  def page(self, number):
      number = self.validate_number(number)
      bottom = (number - 1) * self.per_page
      top = bottom + self.per_page
      if top + self.orphans >= self.count:
          top = self.count
      return Page(self.object_list[bottom:top], number, self)
  \<close>
  \<^verbatim>\<open>ceil(hits / per_page)\<close> is computed on naturals; the float quotient of the source is
  exact for every count a table can hold.
\<close>

record 'a paginator =
  object_list :: "'a list"
  per_page :: nat
  orphans :: nat
  allow_empty_first_page :: bool

definition Paginator :: "'a list \<Rightarrow> nat \<Rightarrow> 'a paginator" where
  "Paginator xs n =
     \<lparr>object_list = xs, per_page = n, orphans = 0, allow_empty_first_page = True\<rparr>"

definition count :: "'a paginator \<Rightarrow> nat" where
  "count P = length (object_list P)"

definition ceil_div :: "nat \<Rightarrow> nat \<Rightarrow> nat" where
  "ceil_div a b = (a + b - 1) div b"

definition num_pages :: "'a paginator \<Rightarrow> nat" where
  "num_pages P =
     (if count P = 0 \<and> \<not> allow_empty_first_page P then 0
      else let hits = max 1 (count P - orphans P) in ceil_div hits (per_page P))"

datatype page_error = PageNotAnInteger | EmptyPage

definition validate_number :: "'a paginator \<Rightarrow> py_value \<Rightarrow> page_error + int" where
  "validate_number P number =
     (case py_int number of
        Inl _ \<Rightarrow> Inl PageNotAnInteger
      | Inr n \<Rightarrow>
          if n < 1 then Inl EmptyPage
          else if n > int (num_pages P) then Inl EmptyPage
          else Inr n)"

record 'a page =
  object_list :: "'a list"
  number :: int
  paginator :: "'a paginator"

definition page :: "'a paginator \<Rightarrow> py_value \<Rightarrow> page_error + 'a page" where
  "page P num =
     (case validate_number P num of
        Inl e \<Rightarrow> Inl e
      | Inr n \<Rightarrow>
          (let bottom = (nat n - 1) * per_page P;
               top = bottom + per_page P;
               top = (if top + orphans P \<ge> count P then count P else top)
           in Inr \<lparr>page.object_list = drop bottom (take top (paginator.object_list P)),
                    number = n, paginator = P\<rparr>))"

definition get_page :: "'a paginator \<Rightarrow> py_value \<Rightarrow> page_error + 'a page" where
  "get_page P num =
     (let n = (case validate_number P num of
                 Inr n \<Rightarrow> n
               | Inl PageNotAnInteger \<Rightarrow> 1
               | Inl EmptyPage \<Rightarrow> int (num_pages P))
      in page P (PyInt n))"

definition has_next :: "'a page \<Rightarrow> bool" where
  "has_next pg = (number pg < int (num_pages (paginator pg)))"

definition has_previous :: "'a page \<Rightarrow> bool" where
  "has_previous pg = (number pg > 1)"

section \<open>The product views: \<^verbatim>\<open>products/views.py\<close>\<close>

text \<open>A request parameter (\<^verbatim>\<open>request.GET.get(key)\<close>, \<^verbatim>\<open>request.POST.get(key)\<close>) is a string
  or absent.\<close>

fun py_of :: "string option \<Rightarrow> py_value" where
  "py_of None = PyNone"
| "py_of (Some s) = PyStr s"

text \<open>
  The search of \<^verbatim>\<open>product_list\<close>:
  \<^verbatim>\<open>
  products = Product.objects.all()
  search_query = request.GET.get('search')
  if search_query:
      products = products.filter(name__icontains=search_query)
               | products.filter(description__icontains=search_query)
               | products.filter(code__icontains=search_query)
  \<close>
\<close>

definition product_queryset :: "store \<Rightarrow> string option \<Rightarrow> product queryset" where
  "product_queryset st search =
     (let qs = objects_all (products st)
      in case search of
           None \<Rightarrow> qs
         | Some q \<Rightarrow>
             if truthy (PyStr q)
             then qs_or
                    (qs_or (qs_filter qs (\<lambda>p. icontains (product.name p) q))
                           (qs_filter qs (\<lambda>p. icontains (product.description p) q)))
                    (qs_filter qs (\<lambda>p. icontains (product.code p) q))
             else qs)"

record product_list_context =
  page_obj :: "product page"
  search_query :: "string option"
  total_products :: nat

text \<open>\<^verbatim>\<open>product_list\<close>: the search, then \<^verbatim>\<open>Paginator(products, 6).get_page(page_number)\<close>.
  An exception of the paginator would leave the view; the result type keeps that
  branch.\<close>

definition product_list ::
  "store \<Rightarrow> string option \<Rightarrow> string option \<Rightarrow> page_error + product_list_context" where
  "product_list st search page_number =
     (let qs = product_queryset st search;
          pgr = Paginator (product_rows qs) 6
      in case get_page pgr (py_of page_number) of
           Inl e \<Rightarrow> Inl e
         | Inr pg \<Rightarrow>
             Inr \<lparr>page_obj = pg, search_query = search, total_products = qs_count qs\<rparr>)"

datatype http_error = Http404

text \<open>\<^verbatim>\<open>product_detail\<close>: \<^verbatim>\<open>get_object_or_404(Product, pk=pk)\<close>.\<close>

definition product_detail :: "store \<Rightarrow> nat \<Rightarrow> http_error + product" where
  "product_detail st k =
     (case find (\<lambda>p. product.pk p = k) (products st) of
        None \<Rightarrow> Inl Http404
      | Some p \<Rightarrow> Inr p)"

text \<open>
  The object \<^verbatim>\<open>Product(**kwargs)\<close> before it is saved, and \<^verbatim>\<open>Product.save\<close>:
  \<^verbatim>\<open>
  def save(self, *args, **kwargs):
      if not self.code:
          self.code = str(uuid.uuid4())[:8].upper()
      super().save(*args, **kwargs)
  \<close>
  The insert of \<^verbatim>\<open>super().save\<close> checks what the model declares, with the bounds of
  SQLite (the framework's default database): the price is a finite number that fits
  \<^verbatim>\<open>max_digits=10, decimal_places=2\<close>, the stock is a non-negative 64-bit integer
  (\<^verbatim>\<open>PositiveIntegerField\<close>), the code is not the code of another row (\<^verbatim>\<open>unique=True\<close>),
  and the category is a row of its table. A row that fails raises an exception of the
  database layer, which is none of \<^verbatim>\<open>ValueError\<close> and \<^verbatim>\<open>Category.DoesNotExist\<close>.
\<close>

record new_product =
  name :: string
  price :: py_float
  image :: "string option"
  instock :: int
  code :: string
  description :: string
  category :: category

datatype db_error = DatabaseError

definition price_fits :: "py_float \<Rightarrow> bool" where
  "price_fits x = (case x of Finite v \<Rightarrow> \<bar>v\<bar> < 99999999995 / 1000 | _ \<Rightarrow> False)"

definition price_value :: "py_float \<Rightarrow> rat" where
  "price_value x = (case x of Finite v \<Rightarrow> v | _ \<Rightarrow> 0)"

definition product_row_ok :: "store \<Rightarrow> new_product \<Rightarrow> bool" where
  "product_row_ok st obj =
     (price_fits (new_product.price obj)
      \<and> 0 \<le> new_product.instock obj \<and> new_product.instock obj < 2 ^ 63
      \<and> new_product.code obj \<notin> set (map product.code (products st))
      \<and> category.pk (new_product.category obj) \<in> set (map category.pk (categories st)))"

definition insert_product :: "store \<Rightarrow> new_product \<Rightarrow> nat \<Rightarrow> db_error + (nat \<times> store)" where
  "insert_product st obj now =
     (if product_row_ok st obj
      then let k = next_product_pk st;
               row = \<lparr>product.pk = k,
                      name = new_product.name obj,
                      price = price_value (new_product.price obj),
                      image = new_product.image obj,
                      instock = new_product.instock obj,
                      code = new_product.code obj,
                      description = new_product.description obj,
                      category = category.pk (new_product.category obj),
                      created_at = now, updated_at = now\<rparr>
           in Inr (k, st\<lparr>products := products st @ [row], next_product_pk := Suc k\<rparr>)
      else Inl DatabaseError)"

definition Product_save ::
  "store \<Rightarrow> new_product \<Rightarrow> nat \<Rightarrow> 128 word stream
     \<Rightarrow> (db_error + (nat \<times> store)) \<times> 128 word stream" where
  "Product_save st obj now rng =
     (let (obj, rng) =
            (if new_product.code obj = []
             then let (u, rng') = uuid4 rng in (obj\<lparr>new_product.code := generate_code u\<rparr>, rng')
             else (obj, rng))
      in (insert_product st obj now, rng))"

text \<open>\<^verbatim>\<open>Category.objects.get(id=category_id)\<close>: the id is converted with \<^verbatim>\<open>int\<close>
  (a \<^verbatim>\<open>ValueError\<close> when it is no number), then looked up.\<close>

datatype get_error = GetValueError | DoesNotExist

definition Category_objects_get :: "store \<Rightarrow> py_value \<Rightarrow> get_error + category" where
  "Category_objects_get st ident =
     (case py_int ident of
        Inl _ \<Rightarrow> Inl GetValueError
      | Inr k \<Rightarrow>
          (case find (\<lambda>c. int (category.pk c) = k) (categories st) of
             None \<Rightarrow> Inl DoesNotExist
           | Some c \<Rightarrow> Inr c))"

text \<open>
  \<^verbatim>\<open>product_create\<close>. The messages are those of the source:
  \<^verbatim>\<open>'All fields are required!'\<close>, \<^verbatim>\<open>'Invalid category selected!'\<close>,
  \<^verbatim>\<open>'Invalid price or stock value!'\<close> and \<^verbatim>\<open>'Error creating product: ...'\<close>.
  The keyword arguments of \<^verbatim>\<open>Product.objects.create\<close> are evaluated in the order
  written, so \<^verbatim>\<open>uuid.uuid4()\<close> is called after \<^verbatim>\<open>float(price)\<close> and \<^verbatim>\<open>int(instock)\<close>
  have returned, once.
\<close>

datatype message = AllFieldsRequired | InvalidCategory | InvalidPriceOrStock | ErrorCreating

datatype response = Redirect nat | Render "message option"

record create_request =
  http_method :: string
  post_name :: "string option"
  post_price :: "string option"
  post_description :: "string option"
  post_instock :: "string option"
  post_category :: "string option"
  files_image :: "string option"

definition product_create ::
  "store \<Rightarrow> create_request \<Rightarrow> nat \<Rightarrow> 128 word stream
     \<Rightarrow> response \<times> store \<times> 128 word stream" where
  "product_create st request now rng =
     (if http_method request = ''POST'' then
        if \<not> list_all (\<lambda>v. truthy (py_of v))
               [post_name request, post_price request, post_description request,
                post_instock request, post_category request]
        then (Render (Some AllFieldsRequired), st, rng)
        else
          case Category_objects_get st (py_of (post_category request)) of
            Inl DoesNotExist \<Rightarrow> (Render (Some InvalidCategory), st, rng)
          | Inl GetValueError \<Rightarrow> (Render (Some InvalidPriceOrStock), st, rng)
          | Inr cat \<Rightarrow>
              (case py_float_of (py_of (post_price request)) of
                 Inl e \<Rightarrow>
                   (Render (Some (if e = ValueError then InvalidPriceOrStock else ErrorCreating)),
                    st, rng)
               | Inr pr \<Rightarrow>
                   (case py_int (py_of (post_instock request)) of
                      Inl e \<Rightarrow>
                        (Render (Some (if e = ValueError then InvalidPriceOrStock
                                       else ErrorCreating)),
                         st, rng)
                    | Inr n \<Rightarrow>
                        (let (u, rng) = uuid4 rng;
                             obj = \<lparr>new_product.name = the (post_name request),
                                    price = pr,
                                    image = files_image request,
                                    instock = n,
                                    code = generate_code u,
                                    description = the (post_description request),
                                    category = cat\<rparr>
                         in case Product_save st obj now rng of
                              (Inl _, rng) \<Rightarrow> (Render (Some ErrorCreating), st, rng)
                            | (Inr (k, st'), rng) \<Rightarrow> (Redirect k, st', rng))))
      else (Render None, st, rng))"

text \<open>\<^verbatim>\<open>product_delete\<close>: the row is deleted on \<^verbatim>\<open>POST\<close>, a confirmation page is
  rendered otherwise.\<close>

datatype delete_response = Deleted | Confirm

definition product_delete :: "store \<Rightarrow> string \<Rightarrow> nat \<Rightarrow> http_error + (delete_response \<times> store)" where
  "product_delete st meth k =
     (case product_detail st k of
        Inl e \<Rightarrow> Inl e
      | Inr p \<Rightarrow>
          if meth = ''POST''
          then Inr (Deleted, st\<lparr>products := filter (\<lambda>x. product.pk x \<noteq> product.pk p) (products st)\<rparr>)
          else Inr (Confirm, st))"

section \<open>The product view of \<^verbatim>\<open>lab2\<close>\<close>

text \<open>
  \<^verbatim>\<open>lab2/marketplace/products/views.py\<close> has the same \<^verbatim>\<open>product_create\<close> without the
  category: four required fields, then
  \<^verbatim>\<open>Product.objects.create(name=name, price=float(price), description=description,
  instock=int(instock), image=image, code=str(uuid.uuid4())[:8].upper())\<close> under
  \<^verbatim>\<open>except ValueError\<close> and \<^verbatim>\<open>except Exception\<close>. The \<^verbatim>\<open>Product\<close> model of \<^verbatim>\<open>lab2\<close> is not
  among the sources, so the insert is a parameter of the view: it returns the key and
  the new store, or raises a \<^verbatim>\<open>ValueError\<close> or another exception.
\<close>

record lab2_product =
  name :: string
  price :: py_float
  description :: string
  instock :: int
  image :: "string option"
  code :: string

datatype create_error = RaisedValueError | RaisedOther

definition lab2_product_create ::
  "('s \<Rightarrow> lab2_product \<Rightarrow> nat \<Rightarrow> create_error + (nat \<times> 's))
     \<Rightarrow> 's \<Rightarrow> create_request \<Rightarrow> nat \<Rightarrow> 128 word stream
     \<Rightarrow> response \<times> 's \<times> 128 word stream" where
  "lab2_product_create objects_create st request now rng =
     (if http_method request = ''POST'' then
        if \<not> list_all (\<lambda>v. truthy (py_of v))
               [post_name request, post_price request, post_description request,
                post_instock request]
        then (Render (Some AllFieldsRequired), st, rng)
        else
          case py_float_of (py_of (post_price request)) of
            Inl e \<Rightarrow>
              (Render (Some (if e = ValueError then InvalidPriceOrStock else ErrorCreating)),
               st, rng)
          | Inr pr \<Rightarrow>
              (case py_int (py_of (post_instock request)) of
                 Inl e \<Rightarrow>
                   (Render (Some (if e = ValueError then InvalidPriceOrStock
                                  else ErrorCreating)),
                    st, rng)
               | Inr n \<Rightarrow>
                   (let (u, rng) = uuid4 rng;
                        obj = \<lparr>lab2_product.name = the (post_name request),
                               price = pr,
                               description = the (post_description request),
                               instock = n,
                               image = files_image request,
                               code = generate_code u\<rparr>
                    in case objects_create st obj now of
                         Inl RaisedValueError \<Rightarrow> (Render (Some InvalidPriceOrStock), st, rng)
                       | Inl RaisedOther \<Rightarrow> (Render (Some ErrorCreating), st, rng)
                       | Inr (k, st') \<Rightarrow> (Redirect k, st', rng)))
      else (Render None, st, rng))"

section \<open>The category views: \<^verbatim>\<open>category/forms.py\<close> and \<^verbatim>\<open>category/views.py\<close>\<close>

text \<open>
  \<^verbatim>\<open>CategoryListView\<close>: \<^verbatim>\<open>paginate_by = 8\<close> and
  \<^verbatim>\<open>
  def get_queryset(self):
      queryset = Category.objects.all()
      search_query = self.request.GET.get('search')
      if search_query:
          queryset = queryset.filter(
              Q(name__icontains=search_query) | Q(description__icontains=search_query))
      return queryset
  \<close>
  The list view builds \<^verbatim>\<open>Paginator(queryset, paginate_by)\<close> with the paginator's defaults.
\<close>

definition paginate_by :: nat where
  "paginate_by = 8"

definition get_queryset :: "store \<Rightarrow> string option \<Rightarrow> category queryset" where
  "get_queryset st search =
     (let qs = objects_all (categories st)
      in case search of
           None \<Rightarrow> qs
         | Some q \<Rightarrow>
             if truthy (PyStr q)
             then qs_filter qs
                    (\<lambda>c. icontains (category.name c) q \<or> icontains (category.description c) q)
             else qs)"

definition category_paginator :: "store \<Rightarrow> string option \<Rightarrow> category paginator" where
  "category_paginator st search = Paginator (category_rows (get_queryset st search)) paginate_by"

text \<open>
  \<^verbatim>\<open>CategoryForm\<close> is a model form over \<^verbatim>\<open>name\<close>, \<^verbatim>\<open>description\<close> and \<^verbatim>\<open>image\<close>.
  A character field strips the input, requires it to be non-empty and runs its
  validators (the maximal length, no NUL character); only a field that passed has its
  \<^verbatim>\<open>clean_<field>\<close> method called:
  \<^verbatim>\<open>
  def clean_name(self):
      name = self.cleaned_data.get('name')
      if name:
          qs = Category.objects.filter(name__iexact=name)
          if self.instance.pk:
              qs = qs.exclude(pk=self.instance.pk)
          if qs.exists():
              raise forms.ValidationError('A category with this name already exists.')
      return name
  \<close>
  After the fields, the model's own \<^verbatim>\<open>unique=True\<close> on \<^verbatim>\<open>name\<close> is checked for a field
  without errors. The image is an opaque, already validated reference.
\<close>

datatype form_error =
    Required
  | MaxLength
  | NullCharacters
  | NameAlreadyExists
  | UniqueName

definition CharField_clean :: "nat option \<Rightarrow> string option \<Rightarrow> form_error list + string" where
  "CharField_clean max_length raw =
     (let v = strip (case raw of None \<Rightarrow> [] | Some s \<Rightarrow> s)
      in if v = [] then Inl [Required]
         else
           let errs =
                 (if (case max_length of None \<Rightarrow> False | Some m \<Rightarrow> m < length v)
                  then [MaxLength] else [])
                 @ (if CHR 0x00 \<in> set v then [NullCharacters] else [])
           in if errs = [] then Inr v else Inl errs)"

definition clean_name :: "store \<Rightarrow> nat option \<Rightarrow> string \<Rightarrow> form_error list + string" where
  "clean_name st instance_pk nm =
     (if nm \<noteq> [] then
        let qs = qs_filter (objects_all (categories st)) (\<lambda>c. iexact (category.name c) nm);
            qs = (case instance_pk of
                    None \<Rightarrow> qs
                  | Some k \<Rightarrow> qs_exclude qs (\<lambda>c. category.pk c = k))
        in if qs_exists qs then Inl [NameAlreadyExists] else Inr nm
      else Inr nm)"

definition validate_unique :: "store \<Rightarrow> nat option \<Rightarrow> string \<Rightarrow> form_error list + string" where
  "validate_unique st instance_pk nm =
     (let qs = qs_filter (objects_all (categories st)) (\<lambda>c. category.name c = nm);
          qs = (case instance_pk of
                  None \<Rightarrow> qs
                | Some k \<Rightarrow> qs_exclude qs (\<lambda>c. category.pk c = k))
      in if qs_exists qs then Inl [UniqueName] else Inr nm)"

record category_form =
  form_name :: "string option"
  form_description :: "string option"
  form_image :: "string option"

definition clean_name_field ::
  "store \<Rightarrow> nat option \<Rightarrow> string option \<Rightarrow> form_error list + string" where
  "clean_name_field st instance_pk raw =
     (case CharField_clean (Some 100) raw of
        Inl es \<Rightarrow> Inl es
      | Inr v \<Rightarrow>
          (case clean_name st instance_pk v of
             Inl es \<Rightarrow> Inl es
           | Inr nm \<Rightarrow> validate_unique st instance_pk nm))"

text \<open>The errors of the form, by field, in the order of the form's fields.\<close>

definition form_errors ::
  "store \<Rightarrow> nat option \<Rightarrow> category_form \<Rightarrow> (string \<times> form_error list) list" where
  "form_errors st instance_pk form =
     (case clean_name_field st instance_pk (form_name form) of
        Inl es \<Rightarrow> [(''name'', es)]
      | Inr _ \<Rightarrow> [])
     @ (case CharField_clean None (form_description form) of
          Inl es \<Rightarrow> [(''description'', es)]
        | Inr _ \<Rightarrow> [])"

text \<open>\<^verbatim>\<open>CategoryCreateView\<close>: a valid form is saved and the view redirects to the list
  (\<^verbatim>\<open>form_valid\<close>); an invalid one is rendered again with its errors
  (\<^verbatim>\<open>form_invalid\<close>) and nothing is saved.\<close>

datatype category_response =
    RedirectToList
  | FormInvalid "(string \<times> form_error list) list"

definition category_create ::
  "store \<Rightarrow> category_form \<Rightarrow> nat \<Rightarrow> category_response \<times> store" where
  "category_create st form now =
     (case (clean_name_field st None (form_name form),
            CharField_clean None (form_description form)) of
        (Inr nm, Inr descr) \<Rightarrow>
          (let k = next_category_pk st;
               row = \<lparr>category.pk = k, name = nm, description = descr,
                      image = form_image form, created_at = now, updated_at = now\<rparr>
           in (RedirectToList,
               st\<lparr>categories := categories st @ [row], next_category_pk := Suc k\<rparr>))
      | _ \<Rightarrow> (FormInvalid (form_errors st None form), st))"

text \<open>
  \<^verbatim>\<open>CategoryDeleteView\<close>: the object is looked up (404 when absent) and deleted. The
  foreign key of \<^verbatim>\<open>Product\<close> is declared \<^verbatim>\<open>on_delete=models.CASCADE\<close>: the framework
  deletes the products that refer to the category together with it, in one transaction.
\<close>

definition Category_delete :: "store \<Rightarrow> category \<Rightarrow> store" where
  "Category_delete st c =
     st\<lparr>products := filter (\<lambda>p. product.category p \<noteq> category.pk c) (products st),
        categories := filter (\<lambda>x. category.pk x \<noteq> category.pk c) (categories st)\<rparr>"

definition category_delete :: "store \<Rightarrow> nat \<Rightarrow> http_error + store" where
  "category_delete st k =
     (case find (\<lambda>c. category.pk c = k) (categories st) of
        None \<Rightarrow> Inl Http404
      | Some c \<Rightarrow> Inr (Category_delete st c))"

section \<open>Invariants of the store\<close>

text \<open>Every category name entered through the form is one that the name field accepts
  and returns unchanged: it is non-empty, has no surrounding whitespace, at most 100
  characters and no NUL.\<close>

definition names_clean :: "store \<Rightarrow> bool" where
  "names_clean st =
     list_all (\<lambda>c. CharField_clean (Some 100) (Some (category.name c)) = Inr (category.name c))
       (categories st)"

text \<open>Primary keys of products are not shared, and every product refers to a category
  of the store.\<close>

definition products_ok :: "store \<Rightarrow> bool" where
  "products_ok st =
     (distinct (map product.pk (products st))
      \<and> list_all (\<lambda>p. product.category p \<in> set (map category.pk (categories st)))
          (products st))"

section \<open>Example data\<close>

text \<open>A small catalogue: two categories and three products, created in the order
  Red Shoe, Blue Shoe, Red Hat; and a stock room with seven products of one category,
  one more than a page of the product list holds.\<close>

definition footwear :: category where
  "footwear = \<lparr>category.pk = 1, name = ''Footwear'', description = ''Shoes and boots'',
                image = None, created_at = 1, updated_at = 1\<rparr>"

definition headwear :: category where
  "headwear = \<lparr>category.pk = 2, name = ''Headwear'', description = ''Hats and caps'',
                image = None, created_at = 2, updated_at = 2\<rparr>"

definition red_shoe :: product where
  "red_shoe = \<lparr>product.pk = 1, name = ''Red Shoe'', price = 30, image = None, instock = 4,
                code = ''0000000A'', description = ''A shoe'', category = 1,
                created_at = 3, updated_at = 3\<rparr>"

definition blue_shoe :: product where
  "blue_shoe = \<lparr>product.pk = 2, name = ''Blue Shoe'', price = 35, image = None, instock = 2,
                 code = ''0000000B'', description = ''Another shoe'', category = 1,
                 created_at = 4, updated_at = 4\<rparr>"

definition red_hat :: product where
  "red_hat = \<lparr>product.pk = 3, name = ''Red Hat'', price = 12, image = None, instock = 9,
               code = ''0000000C'', description = ''A hat'', category = 2,
               created_at = 5, updated_at = 5\<rparr>"

definition shoe_shop :: store where
  "shoe_shop = \<lparr>categories = [footwear, headwear],
                 products = [red_shoe, blue_shoe, red_hat],
                 next_category_pk = 3, next_product_pk = 4\<rparr>"



definition empty_store :: store where
  "empty_store = \<lparr>categories = [], products = [], next_category_pk = 1, next_product_pk = 1\<rparr>"

text \<open>A request to create a boot in the first category, and two readings of the random
  source: the code of the first is the code of the red shoe, the code of the second is
  new to the shop.\<close>

definition boot_request :: create_request where
  "boot_request = \<lparr>http_method = ''POST'', post_name = Some ''Boot'',
                    post_price = Some ''49.5'', post_description = Some ''A boot'',
                    post_instock = Some ''3'', post_category = Some ''1'',
                    files_image = None\<rparr>"

definition colliding_random :: "128 word" where
  "colliding_random = push_bit 96 0xA"

definition fresh_random :: "128 word" where
  "fresh_random = push_bit 96 0xD"

text \<open>The boot as an object with no code yet, as a row, and the shop that holds it.\<close>

definition boot_object :: new_product where
  "boot_object = \<lparr>new_product.name = ''Boot'', price = Finite (99 / 2), image = None,
                   instock = 3, code = [], description = ''A boot'', category = footwear\<rparr>"

definition boot :: product where
  "boot = \<lparr>product.pk = 4, name = ''Boot'', price = 99 / 2, image = None, instock = 3,
            code = ''0000000D'', description = ''A boot'', category = 1,
            created_at = 9, updated_at = 9\<rparr>"

definition boot_shop :: store where
  "boot_shop = shoe_shop\<lparr>products := products shoe_shop @ [boot], next_product_pk := 5\<rparr>"

text \<open>The form for a category of tools, and the store that holds it alone.\<close>

definition tools_form :: category_form where
  "tools_form = \<lparr>form_name = Some ''Tools'', form_description = Some ''Hand tools'',
                  form_image = None\<rparr>"

definition tool_shed :: store where
  "tool_shed = \<lparr>categories = [\<lparr>category.pk = 1, name = ''Tools'', description = ''Hand tools'',
                                image = None, created_at = 1, updated_at = 1\<rparr>],
                 products = [], next_category_pk = 2, next_product_pk = 1\<rparr>"

section \<open>The search\<close>




lemma product_queryset_None: "product_queryset st None = objects_all (products st)"
  by (simp add: product_queryset_def)

lemma product_queryset_empty: "product_queryset st (Some []) = objects_all (products st)"
  by (simp add: product_queryset_def)

lemma get_queryset_None: "get_queryset st None = objects_all (categories st)"
  by (simp add: get_queryset_def)

lemma get_queryset_empty: "get_queryset st (Some []) = objects_all (categories st)"
  by (simp add: get_queryset_def)

lemma qs_rows_objects_all: "qs_rows (objects_all rows) = rows"
  by (simp add: qs_rows_def objects_all_def)








text \<open>
  Claim C9. With no query or the empty query the search returns the query set of all
  rows as it is, for products and for categories: the listing is the whole table in the
  model's order.
\<close>

theorem empty_query_identity:
  "product_queryset st None = objects_all (products st)
   \<and> product_queryset st (Some []) = objects_all (products st)
   \<and> product_rows (product_queryset st None) = sort_key product_order (products st)
   \<and> product_rows (product_queryset st (Some [])) = sort_key product_order (products st)
   \<and> get_queryset st None = objects_all (categories st)
   \<and> get_queryset st (Some []) = objects_all (categories st)
   \<and> category_rows (get_queryset st None) = sort_key category.name (categories st)
   \<and> category_rows (get_queryset st (Some [])) = sort_key category.name (categories st)"
  by (simp add: product_queryset_None product_queryset_empty get_queryset_None
      get_queryset_empty product_rows_def category_rows_def qs_rows_objects_all)

section \<open>Pagination\<close>

text \<open>\<^const>\<open>ceil_div\<close> is the ceiling of the quotient, and a paginator with the defaults
  of the views has at least one page.\<close>

lemma ceil_div_bounds:
  assumes "0 < b"
  shows "a \<le> ceil_div a b * b" and "ceil_div a b * b < a + b"
proof -
  let ?c = "(a + b - 1) div b"
  have "a + b - 1 < b + ?c * b"
    using assms by (rule dividend_less_div_times)
  with assms show "a \<le> ceil_div a b * b"
    by (simp add: ceil_div_def)
  have "?c * b \<le> a + b - 1"
    by (rule div_times_less_eq_dividend)
  moreover have "a + b - 1 < a + b"
    using assms by simp
  ultimately show "ceil_div a b * b < a + b"
    unfolding ceil_div_def by (rule le_less_trans)
qed

lemma ceil_div_ceiling:
  assumes "0 < b"
  shows "int (ceil_div a b) = \<lceil>(of_nat a :: rat) / of_nat b\<rceil>"
proof -
  have pos: "(0::rat) < of_nat b" using assms by simp
  have "(of_nat a :: rat) \<le> of_nat (ceil_div a b * b)"
    using ceil_div_bounds(1) [OF assms, of a] by (simp only: of_nat_le_iff)
  then have up: "(of_nat a :: rat) / of_nat b \<le> of_int (int (ceil_div a b))"
    using pos by (simp add: divide_le_eq)
  have "(of_nat (ceil_div a b * b) :: rat) < of_nat (a + b)"
    using ceil_div_bounds(2) [OF assms, of a] by (simp only: of_nat_less_iff)
  then have lo: "of_int (int (ceil_div a b)) - 1 < (of_nat a :: rat) / of_nat b"
    using pos by (simp add: less_divide_eq algebra_simps)
  show ?thesis
    using ceiling_unique [OF lo up] by simp
qed

lemma num_pages_Paginator:
  "0 < n \<Longrightarrow> num_pages (Paginator xs n) = (if xs = [] then 1 else ceil_div (length xs) n)"
  by (cases xs) (simp_all add: num_pages_def Paginator_def count_def ceil_div_def max_def)

lemma num_pages_pos: "0 < n \<Longrightarrow> 0 < num_pages (Paginator xs n)"
proof -
  assume n: "0 < n"
  show ?thesis
  proof (cases xs)
    case Nil
    with n show ?thesis by (simp add: num_pages_Paginator)
  next
    case (Cons x ys)
    have "length xs \<le> ceil_div (length xs) n * n"
      using n by (rule ceil_div_bounds(1))
    with Cons have "ceil_div (length xs) n \<noteq> 0"
      by (intro notI) simp
    with n Cons show ?thesis by (simp add: num_pages_Paginator)
  qed
qed

lemma num_pages_ceiling:
  assumes "0 < n"
  shows "int (num_pages (Paginator xs n)) =
           (if length xs = 0 then 1 else \<lceil>rat_of_nat (length xs) / rat_of_nat n\<rceil>)"
proof (cases xs)
  case Nil
  with assms show ?thesis by (simp add: num_pages_Paginator)
next
  case (Cons x ys)
  then have "xs \<noteq> []" by simp
  with assms show ?thesis
    using ceil_div_ceiling [OF assms, of "length xs"]
    by (simp only: num_pages_Paginator length_0_conv if_False)
qed


lemma validate_number_PyInt:
  "validate_number P (PyInt k) =
     (if k < 1 then Inl EmptyPage else if k > int (num_pages P) then Inl EmptyPage else Inr k)"
  by (simp add: validate_number_def)

lemma page_PyInt:
  assumes "1 \<le> k" "k \<le> int (num_pages P)" "orphans P = 0"
  shows "page P (PyInt k) =
           Inr \<lparr>page.object_list =
                  take (per_page P) (drop ((nat k - 1) * per_page P) (paginator.object_list P)),
                number = k, paginator = P\<rparr>"
proof (cases "count P \<le> (nat k - 1) * per_page P + per_page P")
  case True
  with assms show ?thesis
    by (simp add: page_def validate_number_PyInt Let_def count_def)
next
  case False
  with assms show ?thesis
    by (simp add: page_def validate_number_PyInt Let_def count_def drop_take)
qed

lemma get_page_eq:
  assumes n: "0 < n"
  shows "get_page (Paginator xs n) v =
           (let N = int (num_pages (Paginator xs n));
                m = (case py_int v of
                       Inl _ \<Rightarrow> 1
                     | Inr k \<Rightarrow> if 1 \<le> k \<and> k \<le> N then k else N)
            in Inr \<lparr>page.object_list = take n (drop ((nat m - 1) * n) xs),
                     number = m, paginator = Paginator xs n\<rparr>)"
proof -
  let ?P = "Paginator xs n"
  let ?N = "int (num_pages ?P)"
  let ?m = "case py_int v of Inl _ \<Rightarrow> 1 | Inr k \<Rightarrow> if 1 \<le> k \<and> k \<le> ?N then k else ?N"
  have N1: "1 \<le> ?N"
    using num_pages_pos [OF n, of xs] by simp
  have m: "1 \<le> ?m" "?m \<le> ?N"
    using N1 by (auto split: sum.splits)
  have sel: "get_page ?P v = page ?P (PyInt ?m)"
    by (auto simp: get_page_def validate_number_def split: sum.splits page_error.splits)
  have P: "orphans ?P = 0" "per_page ?P = n" "paginator.object_list ?P = xs"
    by (simp_all add: Paginator_def)
  show ?thesis
    unfolding sel Let_def using page_PyInt [OF m P(1)] by (simp only: P)
qed


lemma product_list_eq:
  "product_list st search pn =
     (let rows = product_rows (product_queryset st search);
          N = int (num_pages (Paginator rows 6));
          m = (case py_int (py_of pn) of
                 Inl _ \<Rightarrow> 1
               | Inr k \<Rightarrow> if 1 \<le> k \<and> k \<le> N then k else N)
      in Inr \<lparr>page_obj = \<lparr>page.object_list = take 6 (drop ((nat m - 1) * 6) rows),
                            number = m, paginator = Paginator rows 6\<rparr>,
               search_query = search,
               total_products = qs_count (product_queryset st search)\<rparr>)"
  by (simp add: product_list_def get_page_eq Let_def)



text \<open>
  Claim C3, as the code has it. The number of pages of the product list is
  \<^verbatim>\<open>ceil(total_count / 6)\<close> and that of the category list \<^verbatim>\<open>ceil(total_count / 8)\<close> when
  the listing is not empty, and 1 when it is empty: it is never 0.
\<close>

theorem page_count:
  "(\<exists>ctx. product_list st search pn = Inr ctx
      \<and> total_products ctx = count (paginator (page_obj ctx))
      \<and> int (num_pages (paginator (page_obj ctx))) =
          (if total_products ctx = 0 then 1 else \<lceil>rat_of_nat (total_products ctx) / 6\<rceil>))
   \<and> qs_count (get_queryset st search) = count (category_paginator st search)
   \<and> int (num_pages (category_paginator st search)) =
       (if qs_count (get_queryset st search) = 0 then 1
        else \<lceil>rat_of_nat (qs_count (get_queryset st search)) / 8\<rceil>)"
proof -
  let ?q = "product_queryset st search"
  have len: "length (product_rows ?q) = qs_count ?q"
    by (simp add: product_rows_def qs_count_def)
  have "int (num_pages (Paginator (product_rows ?q) 6)) =
          (if qs_count ?q = 0 then 1 else \<lceil>rat_of_nat (qs_count ?q) / 6\<rceil>)"
    using num_pages_ceiling [of 6 "product_rows ?q"] by (simp add: len)
  then have a: "\<exists>ctx. product_list st search pn = Inr ctx
      \<and> total_products ctx = count (paginator (page_obj ctx))
      \<and> int (num_pages (paginator (page_obj ctx))) =
          (if total_products ctx = 0 then 1 else \<lceil>rat_of_nat (total_products ctx) / 6\<rceil>)"
    using len by (simp add: product_list_eq Let_def count_def Paginator_def)
  let ?c = "get_queryset st search"
  have lenc: "length (category_rows ?c) = qs_count ?c"
    by (simp add: category_rows_def qs_count_def)
  have b: "qs_count ?c = count (category_paginator st search)"
    using lenc by (simp add: category_paginator_def count_def Paginator_def)
  have c: "int (num_pages (category_paginator st search)) =
       (if qs_count ?c = 0 then 1 else \<lceil>rat_of_nat (qs_count ?c) / 8\<rceil>)"
    using num_pages_ceiling [of 8 "category_rows ?c"]
    by (simp add: category_paginator_def paginate_by_def lenc)
  from a b c show ?thesis by blast
qed

text \<open>
  The claim as the specification states it gives an empty listing 0 pages. The product
  list of the empty store counts 0 products and 1 page, the empty page 1.
\<close>

theorem empty_listing_has_one_page:
  "map_sum id (\<lambda>ctx. (total_products ctx, num_pages (paginator (page_obj ctx)),
                        page.object_list (page_obj ctx)))
     (product_list empty_store None None) = Inr (0, 1, [])"
  by code_simp

section \<open>The code generator\<close>

text \<open>The first eight characters of the string of a UUID are the eight most significant
  hexadecimal digits of its number: the first hyphen stands after them, and the version
  and variant bits lie further down.\<close>

lemma length_hex32: "length (hex32 u) = 32"
  by (simp add: hex32_def)

lemma take8_uuid_str: "take 8 (uuid_str u) = take 8 (hex32 u)"
  by (simp add: uuid_str_def Let_def length_hex32)

lemma nibble_bound: "unat ((w :: 128 word) AND 0xf) < 16"
proof -
  have "unat (w AND 0xf) \<le> unat (0xf :: 128 word)"
    by (rule word_and_le1 [THEN word_le_nat_alt [THEN iffD1]])
  then show ?thesis by simp
qed

lemma upper_hexdigits:
  "list_all (\<lambda>n. upper_char (hexdigit n) \<in> set ''0123456789ABCDEF'') [0..<16]"
  by code_simp

lemma upper_hexdigit: "n < 16 \<Longrightarrow> upper_char (hexdigit n) \<in> set ''0123456789ABCDEF''"
  using upper_hexdigits by (simp only: list_all_iff set_upt) auto

lemma generate_code_eq:
  "generate_code u =
     map (\<lambda>i. upper_char (hexdigit (unat (drop_bit (4 * (31 - i)) u AND 0xf)))) [0..<8]"
proof -
  have "take 8 (hex32 u) =
          map (\<lambda>i. hexdigit (unat (drop_bit (4 * (31 - i)) u AND 0xf))) (take 8 [0..<32])"
    by (simp only: hex32_def take_map)
  also have "take 8 [0..<32] = [0..<8::nat]"
    by (simp add: take_upt)
  finally show ?thesis
    by (simp add: generate_code_def upper_def take8_uuid_str)
qed

lemma length_generate_code: "length (generate_code u) = 8"
  by (simp add: generate_code_eq)

lemma set_generate_code: "set (generate_code u) \<subseteq> set ''0123456789ABCDEF''"
proof
  fix c assume "c \<in> set (generate_code u)"
  then obtain i where "c = upper_char (hexdigit (unat (drop_bit (4 * (31 - i)) u AND 0xf)))"
    unfolding generate_code_eq by auto
  then show "c \<in> set ''0123456789ABCDEF''"
    using upper_hexdigit [OF nibble_bound] by simp
qed

lemma generate_code_nonempty: "generate_code u \<noteq> []"
  using length_generate_code [of u] by auto

text \<open>
  Claim C10. Every generated code consists of the sixteen characters \<^verbatim>\<open>0-9\<close> and
  \<^verbatim>\<open>A-F\<close> only; no letter from \<^verbatim>\<open>G\<close> to \<^verbatim>\<open>Z\<close> occurs in it, so the alphabet of the
  codes is a proper part of the upper-case letters and digits.
\<close>

theorem generated_code_is_uppercase_hex:
  "set (generate_code u) \<subseteq> set ''0123456789ABCDEF''
   \<and> set (generate_code u) \<inter> set ''GHIJKLMNOPQRSTUVWXYZ'' = {}
   \<and> set ''0123456789ABCDEF'' \<subset> set ''0123456789ABCDEFGHIJKLMNOPQRSTUVWXYZ''"
proof -
  have a: "set (generate_code u) \<subseteq> set ''0123456789ABCDEF''"
    by (rule set_generate_code)
  have "set ''0123456789ABCDEF'' \<inter> set ''GHIJKLMNOPQRSTUVWXYZ'' = {}"
    by simp
  with a have b: "set (generate_code u) \<inter> set ''GHIJKLMNOPQRSTUVWXYZ'' = {}"
    by blast
  have c: "set ''0123456789ABCDEF'' \<subset> set ''0123456789ABCDEFGHIJKLMNOPQRSTUVWXYZ''"
  proof (rule psubsetI)
    show "set ''0123456789ABCDEF'' \<subseteq> set ''0123456789ABCDEFGHIJKLMNOPQRSTUVWXYZ''"
      by simp
    have "CHR ''G'' \<in> set ''0123456789ABCDEFGHIJKLMNOPQRSTUVWXYZ''"
      by simp
    moreover have "CHR ''G'' \<notin> set ''0123456789ABCDEF''"
      by simp
    ultimately show "set ''0123456789ABCDEF'' \<noteq> set ''0123456789ABCDEFGHIJKLMNOPQRSTUVWXYZ''"
      by metis
  qed
  from a b c show ?thesis by (intro conjI)
qed

section \<open>Creating a product\<close>

text \<open>The insert appends one row, whose code is not the code of an older row and whose
  stock is not negative.\<close>

lemma Product_save_coded:
  "new_product.code obj \<noteq> [] \<Longrightarrow> Product_save st obj now rng = (insert_product st obj now, rng)"
  by (simp add: Product_save_def)

lemma insert_product_Inr:
  assumes "insert_product st obj now = Inr (k, st')"
  shows "\<exists>row. products st' = products st @ [row] \<and> product.pk row = k
           \<and> product.code row = new_product.code obj
           \<and> new_product.code obj \<notin> set (map product.code (products st))
           \<and> 0 \<le> new_product.instock obj"
  using assms
  by (auto simp: insert_product_def product_row_ok_def Let_def split: if_splits)

lemma insert_product_collision:
  "new_product.code obj \<in> set (map product.code (products st)) \<Longrightarrow>
   insert_product st obj now = Inl DatabaseError"
  by (simp add: insert_product_def product_row_ok_def)

lemma insert_product_negative:
  "new_product.instock obj < 0 \<Longrightarrow> insert_product st obj now = Inl DatabaseError"
  by (simp add: insert_product_def product_row_ok_def)

text \<open>A request that passes the checks of the view reaches the insert with a code drawn
  from the head of the random source; the view redirects only from there.\<close>

lemma product_create_reaches_save:
  assumes "http_method request = ''POST''"
    and "list_all (\<lambda>v. truthy (py_of v))
           [post_name request, post_price request, post_description request,
            post_instock request, post_category request]"
    and "Category_objects_get st (py_of (post_category request)) = Inr cat"
    and "py_float_of (py_of (post_price request)) = Inr pr"
    and "py_int (py_of (post_instock request)) = Inr n"
  shows "product_create st request now rng =
           (case insert_product st
                   \<lparr>new_product.name = the (post_name request), price = pr,
                    image = files_image request, instock = n,
                    code = generate_code (uuid_of_random (shd rng)),
                    description = the (post_description request), category = cat\<rparr> now of
              Inl _ \<Rightarrow> (Render (Some ErrorCreating), st, stl rng)
            | Inr (k, st') \<Rightarrow> (Redirect k, st', stl rng))"
  using assms
  by (simp add: product_create_def uuid4_def Product_save_coded generate_code_nonempty
      split: sum.splits prod.splits)

lemma product_create_Redirect:
  assumes "product_create st request now rng = (Redirect k, st', rng')"
  shows "http_method request = ''POST''
         \<and> list_all (\<lambda>v. truthy (py_of v))
              [post_name request, post_price request, post_description request,
               post_instock request, post_category request]
         \<and> (\<exists>cat pr n. Category_objects_get st (py_of (post_category request)) = Inr cat
              \<and> py_float_of (py_of (post_price request)) = Inr pr
              \<and> py_int (py_of (post_instock request)) = Inr n
              \<and> insert_product st
                   \<lparr>new_product.name = the (post_name request), price = pr,
                    image = files_image request, instock = n,
                    code = generate_code (uuid_of_random (shd rng)),
                    description = the (post_description request), category = cat\<rparr> now
                 = Inr (k, st')
              \<and> rng' = stl rng)"
  using assms
  by (auto simp: product_create_def uuid4_def Product_save_coded generate_code_nonempty Let_def
      split: if_splits sum.splits prod.splits get_error.splits)



text \<open>The example request on the example shop.\<close>

lemma get_footwear: "Category_objects_get shoe_shop (PyStr ''1'') = Inr footwear"
  by code_simp

lemma float_boot: "float_of_str ''49.5'' = Inr (Finite (99 / 2))"
  by (simp add: float_of_str_def split_sign_def strip_def isspace_def lower_def lower_char_def
      floatnumber_def is_exp_mark_def number_ok_def isdigit_def digits_val_def digit_val_def
      scale10_def)


lemma int_three: "int_of_str ''3'' = Inr 3"
  by code_simp

lemma code_colliding: "generate_code (uuid_of_random colliding_random) = ''0000000A''"
  by code_simp

lemma code_fresh: "generate_code (uuid_of_random fresh_random) = ''0000000D''"
  by code_simp

lemma shoe_shop_codes: "map product.code (products shoe_shop) = [''0000000A'', ''0000000B'', ''0000000C'']"
  by (simp add: shoe_shop_def red_shoe_def blue_shoe_def red_hat_def)


lemma boot_request_fields:
  "http_method boot_request = ''POST''"
  "list_all (\<lambda>v. truthy (py_of v))
     [post_name boot_request, post_price boot_request, post_description boot_request,
      post_instock boot_request, post_category boot_request]"
  "Category_objects_get shoe_shop (py_of (post_category boot_request)) = Inr footwear"
  "py_float_of (py_of (post_price boot_request)) = Inr (Finite (99 / 2))"
  "py_int (py_of (post_instock boot_request)) = Inr 3"
  by (simp_all add: boot_request_def get_footwear float_boot int_three)

lemma insert_boot:
  "insert_product shoe_shop
     \<lparr>new_product.name = ''Boot'', price = Finite (99 / 2), image = None, instock = 3,
      code = ''0000000D'', description = ''A boot'', category = footwear\<rparr> 9
   = Inr (4, boot_shop)"
  by (simp add: insert_product_def product_row_ok_def price_fits_def price_value_def
      shoe_shop_codes boot_shop_def boot_def)
     (simp add: shoe_shop_def footwear_def headwear_def)

lemma create_boot:
  "product_create shoe_shop boot_request 9 (sconst fresh_random)
     = (Redirect 4, boot_shop, sconst fresh_random)"
  by (simp only: product_create_reaches_save [OF boot_request_fields])
     (simp add: boot_request_def code_fresh insert_boot)



lemma hex_is_upper_alnum:
  "c \<in> set ''0123456789ABCDEF'' \<Longrightarrow> isdigit c \<or> (CHR ''A'' \<le> c \<and> c \<le> CHR ''Z'')"
  by (auto simp: isdigit_def)

lemma Product_save_Inr:
  assumes "Product_save st obj now rng = (Inr (k, st'), rng')"
  shows "\<exists>row. products st' = products st @ [row]
           \<and> product.code row \<notin> set (map product.code (products st))
           \<and> product.code row =
               (if new_product.code obj = [] then generate_code (uuid_of_random (shd rng))
                else new_product.code obj)"
proof (cases "new_product.code obj = []")
  case True
  with assms have "insert_product st (obj\<lparr>new_product.code := generate_code (uuid_of_random (shd rng))\<rparr>) now
                     = Inr (k, st')"
    by (simp add: Product_save_def uuid4_def)
  from insert_product_Inr [OF this] True show ?thesis
    by auto
next
  case False
  with assms have "insert_product st obj now = Inr (k, st')"
    by (simp add: Product_save_def)
  from insert_product_Inr [OF this] False show ?thesis
    by auto
qed

lemma save_boot:
  "Product_save shoe_shop boot_object 9 (sconst fresh_random)
     = (Inr (4, boot_shop), sconst fresh_random)"
  using insert_boot
  by (simp add: Product_save_def uuid4_def boot_object_def code_fresh)

text \<open>The view of \<^verbatim>\<open>lab2\<close> makes the same checks before the insert, whatever the insert
  does: a request with a field missing, or a price or a stock that does not parse, is
  answered with a message, with the store and the random source as they were.\<close>

lemma lab2_create_rejects_bad_input:
  assumes "http_method request = ''POST''"
    and "\<not> list_all (\<lambda>v. truthy (py_of v))
              [post_name request, post_price request, post_description request,
               post_instock request]
         \<or> (\<exists>e. py_float_of (py_of (post_price request)) = Inl e)
         \<or> (\<exists>e. py_int (py_of (post_instock request)) = Inl e)"
  shows "\<exists>m. lab2_product_create objects_create st request now rng = (Render (Some m), st, rng)"
  using assms
  by (auto simp: lab2_product_create_def split: sum.splits)

lemma lab2_create_code:
  assumes "lab2_product_create objects_create st request now rng = (Redirect k, st', rng')"
  shows "\<exists>obj. objects_create st obj now = Inr (k, st')
           \<and> lab2_product.code obj = generate_code (uuid_of_random (shd rng))
           \<and> rng' = stl rng"
  using assms
  by (auto simp: lab2_product_create_def uuid4_def Let_def
      split: if_splits sum.splits prod.splits create_error.splits)

text \<open>
  Claim C4, as the code has it. When the code generated for a new product is the code
  of an existing product, \<^verbatim>\<open>product_create\<close> does not generate another one: it has read
  the random source once, reports \<^verbatim>\<open>'Error creating product: ...'\<close> and leaves the store
  as it was.
\<close>

theorem no_retry_on_collision:
  assumes "http_method request = ''POST''"
    and "list_all (\<lambda>v. truthy (py_of v))
           [post_name request, post_price request, post_description request,
            post_instock request, post_category request]"
    and "Category_objects_get st (py_of (post_category request)) = Inr cat"
    and "py_float_of (py_of (post_price request)) = Inr pr"
    and "py_int (py_of (post_instock request)) = Inr n"
    and "generate_code (uuid_of_random (shd rng)) \<in> set (map product.code (products st))"
  shows "product_create st request now rng = (Render (Some ErrorCreating), st, stl rng)"
  using assms(6)
  by (simp only: product_create_reaches_save [OF assms(1-5)])
     (simp add: insert_product_collision)

theorem no_retry_on_collision_witness:
  "product_create shoe_shop boot_request 9 (colliding_random ## sconst fresh_random)
     = (Render (Some ErrorCreating), shoe_shop, sconst fresh_random)"
proof -
  have "generate_code (uuid_of_random (shd (colliding_random ## sconst fresh_random)))
          \<in> set (map product.code (products shoe_shop))"
    by (simp add: code_colliding shoe_shop_codes)
  from no_retry_on_collision [OF boot_request_fields this, of 9] show ?thesis
    by simp
qed

text \<open>
  The claim as the specification states it has the creation retried with a new token.
  On the shoe shop, a random source whose first reading collides with the code of the
  red shoe and whose every later reading is new makes the request fail, with the later
  readings unread; the same request on a source of new readings creates the boot.
\<close>

theorem collision_fails_at_once:
  "product_create shoe_shop boot_request 9 (colliding_random ## sconst fresh_random)
     = (Render (Some ErrorCreating), shoe_shop, sconst fresh_random)
   \<and> product_create shoe_shop boot_request 9 (sconst fresh_random)
     = (Redirect 4, boot_shop, sconst fresh_random)"
proof -
  have "product_create shoe_shop boot_request 9 (colliding_random ## sconst fresh_random)
     = (Render (Some ErrorCreating), shoe_shop, sconst fresh_random)"
    by (simp only: product_create_reaches_save [OF boot_request_fields])
       (simp add: boot_request_def code_colliding insert_product_collision shoe_shop_codes)
  with create_boot show ?thesis by simp
qed






text \<open>
  Claim C8. A generated code has exactly eight characters, each a digit or an upper-case
  letter. When \<^verbatim>\<open>product_create\<close> creates a product, the new row carries the code
  generated from the head of the random source, and no row of the store before the
  creation has that code; the same holds for \<^verbatim>\<open>Product.save\<close>, which generates the code
  of an object that has none.
\<close>

theorem generated_code_format_and_uniqueness:
  "length (generate_code u) = 8
   \<and> (\<forall>c\<in>set (generate_code u). isdigit c \<or> (CHR ''A'' \<le> c \<and> c \<le> CHR ''Z''))
   \<and> (product_create st request now rng = (Redirect k, st', rng') \<longrightarrow>
        (\<exists>row. products st' = products st @ [row]
           \<and> product.pk row = k
           \<and> product.code row = generate_code (uuid_of_random (shd rng))
           \<and> product.code row \<notin> set (map product.code (products st))))
   \<and> (Product_save st obj now rng = (Inr (k, st'), rng') \<longrightarrow>
        (\<exists>row. products st' = products st @ [row]
           \<and> product.code row \<notin> set (map product.code (products st))
           \<and> product.code row =
               (if new_product.code obj = [] then generate_code (uuid_of_random (shd rng))
                else new_product.code obj)))"
proof (intro conjI impI ballI)
  show "length (generate_code u) = 8"
    by (rule length_generate_code)
next
  fix c assume "c \<in> set (generate_code u)"
  with set_generate_code have "c \<in> set ''0123456789ABCDEF''"
    by blast
  then show "isdigit c \<or> (CHR ''A'' \<le> c \<and> c \<le> CHR ''Z'')"
    by (rule hex_is_upper_alnum)
next
  assume "product_create st request now rng = (Redirect k, st', rng')"
  from product_create_Redirect [OF this] obtain cat pr n where
    "insert_product st
       \<lparr>new_product.name = the (post_name request), price = pr,
        image = files_image request, instock = n,
        code = generate_code (uuid_of_random (shd rng)),
        description = the (post_description request), category = cat\<rparr> now
     = Inr (k, st')"
    by blast
  from insert_product_Inr [OF this]
  show "\<exists>row. products st' = products st @ [row]
           \<and> product.pk row = k
           \<and> product.code row = generate_code (uuid_of_random (shd rng))
           \<and> product.code row \<notin> set (map product.code (products st))"
    by auto
next
  assume "Product_save st obj now rng = (Inr (k, st'), rng')"
  then show "\<exists>row. products st' = products st @ [row]
           \<and> product.code row \<notin> set (map product.code (products st))
           \<and> product.code row =
               (if new_product.code obj = [] then generate_code (uuid_of_random (shd rng))
                else new_product.code obj)"
    by (rule Product_save_Inr)
qed

theorem generated_code_format_and_uniqueness_witness:
  "product_create shoe_shop boot_request 9 (sconst fresh_random)
     = (Redirect 4, boot_shop, sconst fresh_random)
   \<and> Product_save shoe_shop boot_object 9 (sconst fresh_random)
     = (Inr (4, boot_shop), sconst fresh_random)
   \<and> generate_code (uuid_of_random fresh_random) = ''0000000D''
   \<and> length ''0000000D'' = 8
   \<and> list_all (\<lambda>c. isdigit c \<or> (CHR ''A'' \<le> c \<and> c \<le> CHR ''Z'')) ''0000000D''
   \<and> (\<exists>row. products boot_shop = products shoe_shop @ [row]
         \<and> product.pk row = 4
         \<and> product.code row = ''0000000D''
         \<and> ''0000000D'' \<notin> set (map product.code (products shoe_shop)))"
proof -
  note th = generated_code_format_and_uniqueness
    [of "uuid_of_random fresh_random" shoe_shop boot_request 9 "sconst fresh_random" 4
        boot_shop "sconst fresh_random" boot_object]
  from th have "length (generate_code (uuid_of_random fresh_random)) = 8"
    by blast
  then have 1: "length ''0000000D'' = 8"
    by (simp only: code_fresh)
  from th have "\<forall>c\<in>set (generate_code (uuid_of_random fresh_random)).
                  isdigit c \<or> (CHR ''A'' \<le> c \<and> c \<le> CHR ''Z'')"
    by blast
  then have 2: "list_all (\<lambda>c. isdigit c \<or> (CHR ''A'' \<le> c \<and> c \<le> CHR ''Z'')) ''0000000D''"
    by (simp only: code_fresh list_all_iff)
  from th create_boot
  have "\<exists>row. products boot_shop = products shoe_shop @ [row]
           \<and> product.pk row = 4
           \<and> product.code row = generate_code (uuid_of_random (shd (sconst fresh_random)))
           \<and> product.code row \<notin> set (map product.code (products shoe_shop))"
    by blast
  then have 3: "\<exists>row. products boot_shop = products shoe_shop @ [row]
         \<and> product.pk row = 4
         \<and> product.code row = ''0000000D''
         \<and> ''0000000D'' \<notin> set (map product.code (products shoe_shop))"
    by (auto simp: code_fresh)
  from create_boot save_boot code_fresh 1 2 3 show ?thesis
    by (intro conjI)
qed

section \<open>Deleting a category\<close>

text \<open>Deleting an existing category removes it and the products that refer to it in
  one step; a lookup by a key that no row has answers 404, and a lookup by the key of a
  row finds that row when keys are not shared.\<close>

lemma category_delete_found:
  assumes "find (\<lambda>c. category.pk c = k) (categories st) = Some c"
  shows "category_delete st k =
           Inr (st\<lparr>products := filter (\<lambda>p. product.category p \<noteq> k) (products st),
                   categories := filter (\<lambda>x. category.pk x \<noteq> k) (categories st)\<rparr>)"
proof -
  from assms have "category.pk c = k"
    by (auto simp: find_Some_iff)
  with assms show ?thesis
    by (simp add: category_delete_def Category_delete_def)
qed

lemma find_by_key:
  "distinct (map f xs) \<Longrightarrow> x \<in> set xs \<Longrightarrow> find (\<lambda>q. f q = f x) xs = Some x"
  by (induction xs) auto

lemma product_detail_404:
  "product.pk ` set (products st) \<inter> {k} = {} \<Longrightarrow> product_detail st k = Inl Http404"
  by (auto simp: product_detail_def find_None_iff split: option.splits)

lemma shoe_shop_ok: "products_ok shoe_shop"
  by (simp add: products_ok_def shoe_shop_def red_shoe_def blue_shoe_def red_hat_def
      footwear_def headwear_def)

lemma find_footwear: "find (\<lambda>c. category.pk c = 1) (categories shoe_shop) = Some footwear"
  by (simp add: shoe_shop_def footwear_def)

lemma delete_footwear:
  "category_delete shoe_shop 1 = Inr (shoe_shop\<lparr>products := [red_hat], categories := [headwear]\<rparr>)"
  by (simp only: category_delete_found [OF find_footwear])
     (simp add: shoe_shop_def red_shoe_def blue_shoe_def red_hat_def footwear_def headwear_def)

text \<open>
  Claim C6. Deleting a category that exists deletes, in the same step, all the products
  that refer to it: afterwards \<^verbatim>\<open>product_detail\<close> answers 404 for each of them, every
  other product is still found, the number of products has dropped by the number of
  dependent ones, and every remaining product refers to a remaining category.
\<close>

theorem category_delete_cascades:
  assumes found: "find (\<lambda>c. category.pk c = k) (categories st) = Some c"
    and ok: "products_ok st"
  shows "\<exists>st'. category_delete st k = Inr st'
           \<and> products st' = filter (\<lambda>p. product.category p \<noteq> k) (products st)
           \<and> (\<forall>p\<in>set (products st). product.category p = k \<longrightarrow>
                 product_detail st' (product.pk p) = Inl Http404)
           \<and> (\<forall>p\<in>set (products st). product.category p \<noteq> k \<longrightarrow>
                 product_detail st' (product.pk p) = Inr p)
           \<and> length (products st) =
               length (products st') + length (filter (\<lambda>p. product.category p = k) (products st))
           \<and> k \<notin> set (map category.pk (categories st'))
           \<and> products_ok st'"
proof -
  let ?st' = "st\<lparr>products := filter (\<lambda>p. product.category p \<noteq> k) (products st),
                  categories := filter (\<lambda>x. category.pk x \<noteq> k) (categories st)\<rparr>"
  from ok have dist: "distinct (map product.pk (products st))"
    and fk: "\<forall>p\<in>set (products st). product.category p \<in> set (map category.pk (categories st))"
    by (simp_all add: products_ok_def list_all_iff)
  have 1: "category_delete st k = Inr ?st'"
    using found by (rule category_delete_found)
  have 2: "products ?st' = filter (\<lambda>p. product.category p \<noteq> k) (products st)"
    by simp
  have 3: "product_detail ?st' (product.pk p) = Inl Http404"
    if "p \<in> set (products st)" "product.category p = k" for p
  proof (rule product_detail_404)
    have "q = p" if "q \<in> set (products st)" "product.pk q = product.pk p" for q
      using dist that \<open>p \<in> set (products st)\<close> by (auto simp: distinct_map inj_on_def)
    with \<open>product.category p = k\<close>
    show "product.pk ` set (products ?st') \<inter> {product.pk p} = {}"
      by auto
  qed
  have 4: "product_detail ?st' (product.pk p) = Inr p"
    if "p \<in> set (products st)" "product.category p \<noteq> k" for p
  proof -
    have "distinct (map product.pk (products ?st'))"
      using dist by (simp add: distinct_map_filter)
    moreover have "p \<in> set (products ?st')"
      using that by simp
    ultimately have "find (\<lambda>q. product.pk q = product.pk p) (products ?st') = Some p"
      by (rule find_by_key)
    then show ?thesis
      by (simp add: product_detail_def)
  qed
  have 5: "k \<notin> set (map category.pk (categories ?st'))"
    by auto
  have 6: "products_ok ?st'"
    using dist fk by (auto simp: products_ok_def list_all_iff distinct_map_filter)
  have 7: "length (products st) =
               length (products ?st') + length (filter (\<lambda>p. product.category p = k) (products st))"
    using sum_length_filter_compl [of "\<lambda>p. product.category p = k" "products st"] by simp
  from 1 2 3 4 5 6 7 show ?thesis
    by blast
qed


theorem category_delete_cascades_witness:
  "find (\<lambda>c. category.pk c = 1) (categories shoe_shop) = Some footwear
   \<and> products_ok shoe_shop
   \<and> category_delete shoe_shop 1
       = Inr (shoe_shop\<lparr>products := [red_hat], categories := [headwear]\<rparr>)
   \<and> product_detail (shoe_shop\<lparr>products := [red_hat], categories := [headwear]\<rparr>)
        (product.pk red_shoe) = Inl Http404
   \<and> product_detail (shoe_shop\<lparr>products := [red_hat], categories := [headwear]\<rparr>)
        (product.pk blue_shoe) = Inl Http404
   \<and> product_detail (shoe_shop\<lparr>products := [red_hat], categories := [headwear]\<rparr>)
        (product.pk red_hat) = Inr red_hat
   \<and> products_ok (shoe_shop\<lparr>products := [red_hat], categories := [headwear]\<rparr>)"
proof -
  let ?st' = "shoe_shop\<lparr>products := [red_hat], categories := [headwear]\<rparr>"
  from category_delete_cascades [OF find_footwear shoe_shop_ok] obtain st' where
    del: "category_delete shoe_shop 1 = Inr st'"
    and gone: "\<forall>p\<in>set (products shoe_shop). product.category p = 1 \<longrightarrow>
                 product_detail st' (product.pk p) = Inl Http404"
    and kept: "\<forall>p\<in>set (products shoe_shop). product.category p \<noteq> 1 \<longrightarrow>
                 product_detail st' (product.pk p) = Inr p"
    and ok: "products_ok st'"
    by blast
  from del delete_footwear have st': "st' = ?st'"
    by simp
  have mem: "red_shoe \<in> set (products shoe_shop)" "blue_shoe \<in> set (products shoe_shop)"
    "red_hat \<in> set (products shoe_shop)"
    by (simp_all add: shoe_shop_def)
  have cat: "product.category red_shoe = 1" "product.category blue_shoe = 1"
    "product.category red_hat \<noteq> 1"
    by (simp_all add: red_shoe_def blue_shoe_def red_hat_def)
  from gone mem(1) cat(1) have 1: "product_detail ?st' (product.pk red_shoe) = Inl Http404"
    unfolding st' by blast
  from gone mem(2) cat(2) have 2: "product_detail ?st' (product.pk blue_shoe) = Inl Http404"
    unfolding st' by blast
  from kept mem(3) cat(3) have 3: "product_detail ?st' (product.pk red_hat) = Inr red_hat"
    unfolding st' by blast
  from ok have 4: "products_ok ?st'"
    unfolding st' .
  from find_footwear shoe_shop_ok delete_footwear 1 2 3 4 show ?thesis
    by (intro conjI)
qed

section \<open>Creating a category\<close>

text \<open>Folding the case of a string changes neither its length, nor where it has
  whitespace or NUL. So a name that equals, case disregarded, a name the field accepts
  unchanged is itself accepted unchanged, and reaches \<^verbatim>\<open>clean_name\<close>.\<close>

lemma isspace_lower_char: "isspace (lower_char c) = isspace c"
  by (auto simp: lower_char_def isspace_def less_eq_char_def)

lemma lower_char_nul: "lower_char c = CHR 0x00 \<longleftrightarrow> c = CHR 0x00"
  by (auto simp: lower_char_def less_eq_char_def char_of_eq_iff take_bit_nat_eq_self)

lemma length_lower: "length (lower s) = length s"
  by (simp add: lower_def)

lemma strip_lower: "strip (lower s) = lower (strip s)"
proof -
  have P: "isspace \<circ> lower_char = isspace"
    by (rule ext) (simp add: isspace_lower_char)
  show ?thesis
    by (simp add: strip_def lower_def dropWhile_map rev_map P)
qed

lemma length_dropWhile_eq:
  "length (dropWhile P xs) = length xs \<Longrightarrow> dropWhile P xs = xs"
proof -
  assume "length (dropWhile P xs) = length xs"
  moreover have "length (takeWhile P xs) + length (dropWhile P xs) = length xs"
    by (simp only: length_append [symmetric] takeWhile_dropWhile_id)
  ultimately have "takeWhile P xs = []"
    by simp
  with takeWhile_dropWhile_id [of P xs] show ?thesis
    by simp
qed

lemma strip_same_length:
  assumes "length (strip s) = length s"
  shows "strip s = s"
proof -
  have a: "length (strip s) \<le> length (dropWhile isspace s)"
    using length_dropWhile_le [of isspace "rev (dropWhile isspace s)"]
    by (simp add: strip_def)
  have b: "length (dropWhile isspace s) \<le> length s"
    by (rule length_dropWhile_le)
  from a b assms have "length (dropWhile isspace s) = length s"
    by simp
  then have d: "dropWhile isspace s = s"
    by (rule length_dropWhile_eq)
  with assms have "length (dropWhile isspace (rev s)) = length (rev s)"
    by (simp add: strip_def)
  then have "dropWhile isspace (rev s) = rev s"
    by (rule length_dropWhile_eq)
  with d show ?thesis
    by (simp add: strip_def)
qed

lemma nul_in_lower: "CHR 0x00 \<in> set (lower s) \<longleftrightarrow> CHR 0x00 \<in> set s"
proof
  assume "CHR 0x00 \<in> set (lower s)"
  then obtain x where "x \<in> set s" "lower_char x = CHR 0x00"
    by (auto simp: lower_def)
  then show "CHR 0x00 \<in> set s"
    by (simp add: lower_char_nul)
next
  assume "CHR 0x00 \<in> set s"
  then have "lower_char (CHR 0x00) \<in> set (lower s)"
    by (simp add: lower_def)
  moreover have "lower_char (CHR 0x00) = CHR 0x00"
    by (simp add: lower_char_nul)
  ultimately show "CHR 0x00 \<in> set (lower s)"
    by simp
qed

lemma CharField_clean_same:
  "CharField_clean (Some 100) (Some a) = Inr a \<longleftrightarrow>
     a \<noteq> [] \<and> strip a = a \<and> length a \<le> 100 \<and> CHR 0x00 \<notin> set a"
  by (auto simp: CharField_clean_def Let_def)

lemma iexact_accepts:
  assumes ok: "CharField_clean (Some 100) (Some a) = Inr a"
    and eq: "iexact a nm"
  shows "CharField_clean (Some 100) (Some nm) = Inr nm"
proof -
  from ok have a: "a \<noteq> []" "strip a = a" "length a \<le> 100" "CHR 0x00 \<notin> set a"
    by (simp_all add: CharField_clean_same)
  from eq have low: "lower a = lower nm"
    by (simp add: iexact_def)
  then have len: "length nm = length a"
    using length_lower [of a] length_lower [of nm] by simp
  have "lower (strip nm) = strip (lower nm)"
    by (simp add: strip_lower)
  also have "\<dots> = lower (strip a)"
    by (simp add: low [symmetric] strip_lower)
  also have "\<dots> = lower nm"
    by (simp add: a(2) low)
  finally have "length (strip nm) = length nm"
    using length_lower [of "strip nm"] length_lower [of nm] by simp
  then have s: "strip nm = nm"
    by (rule strip_same_length)
  have n: "CHR 0x00 \<notin> set nm"
    using a(4) nul_in_lower [of a] nul_in_lower [of nm] low by simp
  from a len s n show ?thesis
    by (auto simp: CharField_clean_same)
qed

lemma clean_name_duplicate:
  assumes "c \<in> set (categories st)" "iexact (category.name c) nm" "nm \<noteq> []"
  shows "clean_name st None nm = Inl [NameAlreadyExists]"
proof -
  from assms(1,2) have "filter (\<lambda>c. iexact (category.name c) nm) (categories st) \<noteq> []"
    by (auto simp: filter_empty_conv)
  with assms(3) show ?thesis
    by (simp add: clean_name_def qs_exists_def qs_rows_def qs_filter_def objects_all_def)
qed

text \<open>The two invariants of the category table are kept by \<^const>\<open>category_create\<close>:
  the stored names are clean, and no two of them are equal with the case disregarded.\<close>

lemma strip_idem: "strip (strip s) = strip s"
proof -
  let ?d = "dropWhile isspace s"
  let ?u = "dropWhile isspace (rev ?d)"
  have t: "strip s = rev ?u"
    by (simp add: strip_def)
  have "dropWhile isspace (rev ?u) = rev ?u"
  proof (cases "?u = []")
    case True
    show ?thesis unfolding True by simp
  next
    case False
    have "rev ?d = takeWhile isspace (rev ?d) @ ?u"
      by simp
    then have "last (rev ?d) = last ?u"
      using False by (metis last_appendR)
    moreover have d: "?d \<noteq> []"
    proof
      assume e: "?d = []"
      have "?u = []" unfolding e by simp
      with False show False by contradiction
    qed
    moreover from d have "\<not> isspace (hd ?d)"
      by (rule hd_dropWhile)
    ultimately have "\<not> isspace (hd (rev ?u))"
      using False by (simp add: hd_rev last_rev)
    then show ?thesis
      by (simp add: dropWhile_eq_self_iff)
  qed
  then show ?thesis
    unfolding t by (simp add: strip_def)
qed

lemma CharField_clean_idem:
  "CharField_clean (Some 100) raw = Inr v \<Longrightarrow> CharField_clean (Some 100) (Some v) = Inr v"
  by (auto simp: CharField_clean_def Let_def strip_idem split: if_splits)

lemma category_create_names_clean:
  assumes "names_clean st"
  shows "names_clean (snd (category_create st form now))"
proof (cases "clean_name_field st None (form_name form)")
  case (Inl es)
  with assms show ?thesis
    by (simp add: category_create_def)
next
  case (Inr nm)
  then have "CharField_clean (Some 100) (form_name form) = Inr nm"
    by (auto simp: clean_name_field_def clean_name_def validate_unique_def Let_def
        split: sum.splits if_splits)
  then have "CharField_clean (Some 100) (Some nm) = Inr nm"
    by (rule CharField_clean_idem)
  with assms Inr show ?thesis
    by (cases "CharField_clean None (form_description form)")
       (simp_all add: category_create_def names_clean_def Let_def)
qed


lemma clean_name_Inr:
  assumes "clean_name st None nm = Inr v" "nm \<noteq> []"
  shows "v = nm \<and> lower nm \<notin> set (map (\<lambda>c. lower (category.name c)) (categories st))"
  using assms
  by (auto simp: clean_name_def qs_exists_def qs_rows_def qs_filter_def objects_all_def
      filter_empty_conv iexact_def Let_def split: if_splits)

lemma category_create_names_distinct:
  assumes "distinct (map (\<lambda>c. lower (category.name c)) (categories st))"
  shows "distinct (map (\<lambda>c. lower (category.name c)) (categories (snd (category_create st form now))))"
proof (cases "clean_name_field st None (form_name form)")
  case (Inl es)
  with assms show ?thesis
    by (simp add: category_create_def)
next
  case (Inr nm)
  then obtain v where v: "CharField_clean (Some 100) (form_name form) = Inr v"
    and cn: "clean_name st None v = Inr nm"
    by (auto simp: clean_name_field_def validate_unique_def Let_def split: sum.splits if_splits)
  from v have "v \<noteq> []"
    by (auto simp: CharField_clean_def Let_def split: if_splits)
  from clean_name_Inr [OF cn this]
  have "lower nm \<notin> set (map (\<lambda>c. lower (category.name c)) (categories st))"
    by simp
  with assms Inr show ?thesis
    by (cases "CharField_clean None (form_description form)")
       (simp_all add: category_create_def Let_def)
qed

lemma tool_shed_clean: "names_clean tool_shed"
  by code_simp

lemma create_tools: "category_create empty_store tools_form 1 = (RedirectToList, tool_shed)"
  by code_simp

lemma tools_again_errors:
  "form_errors tool_shed None (tools_form\<lparr>form_name := Some ''tools''\<rparr>)
     = [(''name'', [NameAlreadyExists])]"
  by code_simp

text \<open>
  Claim C7. In a store whose category names were entered through the form, creating a
  category whose name equals the name of an existing category, case disregarded, is
  refused: the form is invalid, its first error is
  \<^verbatim>\<open>'A category with this name already exists.'\<close> on the field \<^verbatim>\<open>name\<close>, and the store
  is as it was. Creating \<^verbatim>\<open>Tools\<close> and then \<^verbatim>\<open>tools\<close> fails at the second.
\<close>

theorem duplicate_name_rejected:
  assumes inv: "names_clean st"
    and c: "c \<in> set (categories st)"
    and nm: "form_name form = Some nm"
    and eq: "iexact (category.name c) nm"
  shows "category_create st form now = (FormInvalid (form_errors st None form), st)
         \<and> (\<exists>rest. form_errors st None form = (''name'', [NameAlreadyExists]) # rest)"
proof -
  from inv c have "CharField_clean (Some 100) (Some (category.name c)) = Inr (category.name c)"
    by (simp add: names_clean_def list_all_iff)
  from iexact_accepts [OF this eq] have field: "CharField_clean (Some 100) (Some nm) = Inr nm" .
  then have "nm \<noteq> []"
    by (simp add: CharField_clean_same)
  from clean_name_duplicate [OF c eq this] field nm
  have name: "clean_name_field st None (form_name form) = Inl [NameAlreadyExists]"
    by (simp add: clean_name_field_def)
  then have 1: "category_create st form now = (FormInvalid (form_errors st None form), st)"
    by (simp add: category_create_def)
  from name have 2: "\<exists>rest. form_errors st None form = (''name'', [NameAlreadyExists]) # rest"
    by (simp add: form_errors_def)
  from 1 2 show ?thesis by simp
qed


theorem duplicate_name_rejected_witness:
  "names_clean tool_shed
   \<and> category_create empty_store tools_form 1 = (RedirectToList, tool_shed)
   \<and> iexact ''Tools'' ''tools''
   \<and> category_create tool_shed (tools_form\<lparr>form_name := Some ''tools''\<rparr>) 2
       = (FormInvalid [(''name'', [NameAlreadyExists])], tool_shed)"
proof -
  let ?c = "\<lparr>category.pk = 1, name = ''Tools'', description = ''Hand tools'',
             image = None, created_at = 1, updated_at = 1\<rparr>"
  let ?form = "tools_form\<lparr>form_name := Some ''tools''\<rparr>"
  have c: "?c \<in> set (categories tool_shed)"
    by (simp add: tool_shed_def)
  have nm: "form_name ?form = Some ''tools''"
    by simp
  have eq: "iexact ''Tools'' ''tools''"
    by code_simp
  then have eq': "iexact (category.name ?c) ''tools''"
    by simp
  from duplicate_name_rejected [OF tool_shed_clean c nm eq', of 2]
  have "category_create tool_shed ?form 2 = (FormInvalid (form_errors tool_shed None ?form), tool_shed)"
    by blast
  then have "category_create tool_shed ?form 2
               = (FormInvalid [(''name'', [NameAlreadyExists])], tool_shed)"
    by (simp only: tools_again_errors)
  with tool_shed_clean create_tools eq show ?thesis
    by (intro conjI)
qed

end
